theory Spec2Isabelle
  imports Complex_Main
begin

section \<open>JavaScript numbers\<close>

text \<open>
  The calculators of \<^verbatim>\<open>src/services/electricalLogic.ts\<close> compute on JavaScript
  numbers. A number is modelled as a real, or one of the three special values that the
  source's divisions produce: dividing by zero does not raise in JavaScript, it yields
  \<^verbatim>\<open>Infinity\<close>, \<^verbatim>\<open>-Infinity\<close> or \<^verbatim>\<open>NaN\<close>, and every
  comparison with \<^verbatim>\<open>NaN\<close> is false.

  Arithmetic on finite values is exact: the rounding, overflow and underflow of binary64
  are not part of this type. Section \<open>Rounded arithmetic\<close> below adds the rounding to
  binary64; it is used for the solar calculator, where the property in question is the
  exact value of a result. There is a single zero, read as \<^verbatim>\<open>+0\<close>.
\<close>

datatype number = Num real | Infinity | NegInfinity | NaN

fun nsign :: "number \<Rightarrow> real" where
  "nsign (Num a) = sgn a"
| "nsign Infinity = 1"
| "nsign NegInfinity = - 1"
| "nsign NaN = 0"

definition of_sign :: "real \<Rightarrow> number" where
  "of_sign s = (if 0 < s then Infinity else if s < 0 then NegInfinity else NaN)"

fun nmul :: "number \<Rightarrow> number \<Rightarrow> number" where
  "nmul (Num a) (Num b) = Num (a * b)"
| "nmul NaN y = NaN"
| "nmul x NaN = NaN"
| "nmul x y = of_sign (nsign x * nsign y)"

fun ndiv :: "number \<Rightarrow> number \<Rightarrow> number" where
  "ndiv (Num a) (Num b) = (if b = 0 then of_sign (sgn a) else Num (a / b))"
| "ndiv NaN y = NaN"
| "ndiv x NaN = NaN"
| "ndiv (Num a) y = Num 0"
| "ndiv x (Num b) = of_sign (nsign x * (if b < 0 then - 1 else 1))"
| "ndiv x y = NaN"

fun nle :: "number \<Rightarrow> number \<Rightarrow> bool" where
  "nle NaN y = False"
| "nle x NaN = False"
| "nle (Num a) (Num b) = (a \<le> b)"
| "nle NegInfinity y = True"
| "nle x Infinity = True"
| "nle x y = False"

fun nlt :: "number \<Rightarrow> number \<Rightarrow> bool" where
  "nlt NaN y = False"
| "nlt x NaN = False"
| "nlt (Num a) (Num b) = (a < b)"
| "nlt Infinity y = False"
| "nlt x Infinity = True"
| "nlt x NegInfinity = False"
| "nlt NegInfinity y = True"

definition nge :: "number \<Rightarrow> number \<Rightarrow> bool" where
  "nge x y = nle y x"

definition ngt :: "number \<Rightarrow> number \<Rightarrow> bool" where
  "ngt x y = nlt y x"

section \<open>Property reads and array reads\<close>

text \<open>
  The result of reading a property whose values are numbers. \<^verbatim>\<open>capacity\<close> is an
  object literal, so \<^verbatim>\<open>cable.capacity[method]\<close> is an ordinary property read: a
  key that is not an own property is looked up in \<^verbatim>\<open>Object.prototype\<close>, where it
  finds a function (or, for \<^verbatim>\<open>__proto__\<close>, the prototype object itself); any other
  key yields \<^verbatim>\<open>undefined\<close>.
\<close>

datatype jsval = Undefined | Number real | Inherited

definition Object_prototype_keys :: "string list" where
  "Object_prototype_keys =
     [''constructor'', ''hasOwnProperty'', ''isPrototypeOf'', ''propertyIsEnumerable'',
      ''toLocaleString'', ''toString'', ''valueOf'', ''__proto__'',
      ''__defineGetter__'', ''__defineSetter__'', ''__lookupGetter__'', ''__lookupSetter__'']"

definition get :: "(string \<times> real) list \<Rightarrow> string \<Rightarrow> jsval" where
  "get obj k =
     (case map_of obj k of
        Some v \<Rightarrow> Number v
      | None \<Rightarrow> if k \<in> set Object_prototype_keys then Inherited else Undefined)"

text \<open>\<^verbatim>\<open>a || b\<close>: \<^verbatim>\<open>undefined\<close> and \<^verbatim>\<open>0\<close> are falsy, objects and functions are not.\<close>

fun or_else :: "jsval \<Rightarrow> jsval \<Rightarrow> jsval" where
  "or_else Undefined b = b"
| "or_else (Number v) b = (if v = 0 then b else Number v)"
| "or_else Inherited b = Inherited"

text \<open>The conversion that \<^verbatim>\<open>*\<close> applies to its operands.\<close>

fun ToNumber :: "jsval \<Rightarrow> number" where
  "ToNumber Undefined = NaN"
| "ToNumber (Number v) = Num v"
| "ToNumber Inherited = NaN"

text \<open>
  The derating tables are keyed by numbers. A number key is converted to its decimal
  string, which is never the name of an inherited property, so the read is a plain lookup;
  \<^verbatim>\<open>NaN\<close> and the infinities are no key of either table.
\<close>

fun get_num :: "(real \<times> real) list \<Rightarrow> number \<Rightarrow> jsval" where
  "get_num obj (Num k) = (case map_of obj k of Some v \<Rightarrow> Number v | None \<Rightarrow> Undefined)"
| "get_num obj x = Undefined"

text \<open>\<^verbatim>\<open>f(x) || d\<close> where \<^verbatim>\<open>d\<close> is a number literal.\<close>

fun or_num :: "jsval \<Rightarrow> real \<Rightarrow> real" where
  "or_num (Number v) d = (if v = 0 then d else v)"
| "or_num x d = d"

text \<open>\<^verbatim>\<open>xs[i]\<close> is \<^verbatim>\<open>undefined\<close> out of range; \<^verbatim>\<open>xs.indexOf(x)\<close> is -1 when absent.\<close>

definition at_index :: "'a list \<Rightarrow> int \<Rightarrow> 'a option" where
  "at_index xs i = (if 0 \<le> i \<and> i < int (length xs) then Some (xs ! nat i) else None)"

fun indexOf :: "'a list \<Rightarrow> 'a \<Rightarrow> int" where
  "indexOf [] x = - 1"
| "indexOf (y # ys) x =
     (if y = x then 0 else (let i = indexOf ys x in if i < 0 then - 1 else i + 1))"

text \<open>Reading a property of \<^verbatim>\<open>undefined\<close> raises a \<^verbatim>\<open>TypeError\<close>.\<close>

datatype error = TypeError

section \<open>Rounded arithmetic\<close>

text \<open>
  Rounding to binary64, for the solar calculator, where a claim is about the exact value
  of a result. A nonzero real \<open>x\<close> with \<open>2^e \<le> |x| < 2^(e+1)\<close> is rounded to the
  nearest multiple of \<open>2^(e-52)\<close>, ties to the even multiple; below the normal range
  the spacing stays \<open>2^-1074\<close> (subnormals), and a rounded magnitude of \<open>2^1024\<close> or
  more is an infinity. \<open>expo x\<close> is the exponent \<open>e\<close> of a positive \<open>x\<close>.
\<close>

function expo :: "real \<Rightarrow> int" where
  "expo x = (if x \<le> 0 then 0 else if x < 1 then expo (2 * x) - 1 else if 2 \<le> x then expo (x / 2) + 1 else 0)"
  by pat_completeness auto
termination
proof (relation "measure (\<lambda>x. if 1 \<le> x then nat \<lfloor>x\<rfloor> else nat \<lceil>1 / x\<rceil> + 1)")
  show "wf (measure (\<lambda>x. if 1 \<le> x then nat \<lfloor>x\<rfloor> else nat \<lceil>1 / x\<rceil> + 1))" by simp
next
  fix x :: real
  assume a: "\<not> x \<le> 0" "x < 1"
  show "(2 * x, x) \<in> measure (\<lambda>x. if 1 \<le> x then nat \<lfloor>x\<rfloor> else nat \<lceil>1 / x\<rceil> + 1)"
  proof (cases "1 \<le> 2 * x")
    case True
    with a have "\<lfloor>2 * x\<rfloor> = 1" by (simp add: floor_eq_iff)
    moreover from a have "1 < 1 / x" by simp
    then have "2 \<le> \<lceil>1 / x\<rceil>" by linarith
    ultimately show ?thesis using a True by simp
  next
    case False
    with a have "2 < 1 / x" by (simp add: field_simps)
    have "1 / (2 * x) \<le> 1 / x - 1" using a False by (simp add: field_simps)
    then have "\<lceil>1 / (2 * x)\<rceil> \<le> \<lceil>1 / x - 1\<rceil>" by (rule ceiling_mono)
    then have "\<lceil>1 / (2 * x)\<rceil> < \<lceil>1 / x\<rceil>" by simp
    moreover have "0 < \<lceil>1 / x\<rceil>" using \<open>2 < 1 / x\<close> by linarith
    ultimately show ?thesis using a False by simp
  qed
next
  fix x :: real
  assume a: "\<not> x \<le> 0" "\<not> x < 1" "2 \<le> x"
  then have "x / 2 \<le> x - 1" by simp
  then have "\<lfloor>x / 2\<rfloor> \<le> \<lfloor>x - 1\<rfloor>" by (rule floor_mono)
  then have "\<lfloor>x / 2\<rfloor> < \<lfloor>x\<rfloor>" by simp
  moreover have "0 < \<lfloor>x\<rfloor>" using a by linarith
  ultimately show "(x / 2, x) \<in> measure (\<lambda>x. if 1 \<le> x then nat \<lfloor>x\<rfloor> else nat \<lceil>1 / x\<rceil> + 1)"
    using a by simp
qed

declare expo.simps [simp del]

definition round_even :: "real \<Rightarrow> int" where
  "round_even y =
     (let f = \<lfloor>y\<rfloor>; d = y - of_int f
      in if d < 1 / 2 then f else if 1 / 2 < d then f + 1 else if even f then f else f + 1)"

definition f64 :: "real \<Rightarrow> number" where
  "f64 x =
     (if x = 0 then Num 0
      else
        (let e = max (expo \<bar>x\<bar>) (- 1022);
             u = 2 powi (e - 52);
             r = of_int (round_even (x / u)) * u
         in if 2 ^ 1024 \<le> \<bar>r\<bar> then (if 0 < x then Infinity else NegInfinity) else Num r))"

text \<open>An operation on doubles is the exact operation followed by one rounding.\<close>

definition fmul :: "number \<Rightarrow> number \<Rightarrow> number" where
  "fmul a b = (case nmul a b of Num x \<Rightarrow> f64 x | y \<Rightarrow> y)"

definition fdiv :: "number \<Rightarrow> number \<Rightarrow> number" where
  "fdiv a b = (case ndiv a b of Num x \<Rightarrow> f64 x | y \<Rightarrow> y)"

section \<open>Reference tables\<close>

record CableData =
  section_mm2 :: real
  capacity :: "(string \<times> real) list"
  resistance :: real

definition CABLE_TABLE :: "CableData list" where
  "CABLE_TABLE =
    [\<lparr>section_mm2 = 1.5, capacity = [(''B1'', 17.5), (''B2'', 16.5), (''C'', 19.5)], resistance = 12.1\<rparr>,
     \<lparr>section_mm2 = 2.5, capacity = [(''B1'', 24), (''B2'', 23), (''C'', 27)], resistance = 7.41\<rparr>,
     \<lparr>section_mm2 = 4, capacity = [(''B1'', 32), (''B2'', 30), (''C'', 36)], resistance = 4.61\<rparr>,
     \<lparr>section_mm2 = 6, capacity = [(''B1'', 41), (''B2'', 38), (''C'', 46)], resistance = 3.08\<rparr>,
     \<lparr>section_mm2 = 10, capacity = [(''B1'', 57), (''B2'', 52), (''C'', 63)], resistance = 1.83\<rparr>,
     \<lparr>section_mm2 = 16, capacity = [(''B1'', 76), (''B2'', 69), (''C'', 85)], resistance = 1.15\<rparr>,
     \<lparr>section_mm2 = 25, capacity = [(''B1'', 101), (''B2'', 90), (''C'', 112)], resistance = 0.727\<rparr>,
     \<lparr>section_mm2 = 35, capacity = [(''B1'', 125), (''B2'', 111), (''C'', 138)], resistance = 0.524\<rparr>,
     \<lparr>section_mm2 = 50, capacity = [(''B1'', 151), (''B2'', 133), (''C'', 168)], resistance = 0.387\<rparr>,
     \<lparr>section_mm2 = 70, capacity = [(''B1'', 192), (''B2'', 168), (''C'', 213)], resistance = 0.268\<rparr>,
     \<lparr>section_mm2 = 95, capacity = [(''B1'', 232), (''B2'', 201), (''C'', 258)], resistance = 0.193\<rparr>,
     \<lparr>section_mm2 = 120, capacity = [(''B1'', 269), (''B2'', 232), (''C'', 299)], resistance = 0.153\<rparr>]"

definition TEMPERATURE_FACTORS :: "(real \<times> real) list" where
  "TEMPERATURE_FACTORS =
    [(10, 1.22), (15, 1.17), (20, 1.12), (25, 1.06), (30, 1.00),
     (35, 0.94), (40, 0.87), (45, 0.79), (50, 0.71)]"

definition GROUPING_FACTORS :: "(real \<times> real) list" where
  "GROUPING_FACTORS =
    [(1, 1.00), (2, 0.80), (3, 0.70), (4, 0.65), (5, 0.60),
     (6, 0.57), (7, 0.54), (8, 0.52), (9, 0.50)]"

definition BREAKER_RATINGS :: "real list" where
  "BREAKER_RATINGS = [6, 10, 13, 16, 20, 25, 32, 40, 50, 63, 70, 80, 100, 125]"

section \<open>The conductor sizing engine\<close>

datatype SystemType = monofasico | bifasico | trifasico
datatype LoadType = iluminacao | tomadas | motor | alimentador
datatype Material = cobre | aluminio
datatype Insulation = PVC | EPR
datatype BreakerCurve = B | C | D

text \<open>
  Field names are the source's, changed where a name is already a constant of HOL
  (\<open>power\<close>, \<open>length\<close>, \<open>id\<close>), a keyword of Isabelle (\<open>section\<close>,
  \<open>notes\<close>, \<open>method\<close>) or a field of another record of this theory.
\<close>

record CalcInput =
  systemType :: SystemType
  voltage :: number
  powerW :: number
  powerFactor :: number
  loadType :: LoadType
  lengthM :: number
  methodCode :: string
  temp :: number
  grouping :: number
  material :: Material
  insulation :: Insulation
  breakerCurve :: BreakerCurve
  breakerIcn :: number
  breakerRating :: number

text \<open>
  The notes and the item names of the bill of materials are template strings in the
  source. Each is represented by a constructor that carries the values the template
  interpolates; the wording and the number formatting are not modelled.
\<close>

datatype diagnostic =
    VoltageDropAboveLimit number real
  | BreakerAboveIz number number
  | BreakerBelowIb number number
  | IscAboveIcn number number
  | CurveBForMotor
  | CurveDForLighting
  | CurveBForSockets
  | HighCurrent

datatype bom_name =
    CaboFlexivel real Material Insulation
  | CaboNeutro real
  | CaboTerra real
  | DisjuntorDIN number BreakerCurve number
  | Eletroduto string

datatype bom_quantity = Metres number | OneUnit

record bom_line =
  item :: bom_name
  quantity :: bom_quantity
  estimatedPrice :: number

record CalcResult =
  current :: number
  cableSection :: real
  neutralSection :: real
  earthSection :: real
  conduitSize :: string
  res_breakerRating :: number
  res_breakerCurve :: BreakerCurve
  res_breakerIcn :: number
  voltageDrop :: number
  voltageDropPercent :: number
  shortCircuitCurrent :: number
  isConform :: bool
  isIcnConform :: bool
  izCorrected :: number
  res_notes :: "diagnostic list"
  bom :: "bom_line list"

subsection \<open>Steps 1 and 2: design current and derating\<close>

definition Ib :: "CalcInput \<Rightarrow> number" where
  "Ib inp =
     (if systemType inp = trifasico
      then ndiv (powerW inp) (nmul (nmul (Num (sqrt 3)) (voltage inp)) (powerFactor inp))
      else ndiv (powerW inp) (nmul (voltage inp) (powerFactor inp)))"

definition ft :: "CalcInput \<Rightarrow> real" where
  "ft inp = or_num (get_num TEMPERATURE_FACTORS (temp inp)) 1.0"

definition fg :: "CalcInput \<Rightarrow> real" where
  "fg inp = or_num (get_num GROUPING_FACTORS (grouping inp)) 1.0"

definition fInsulation :: "CalcInput \<Rightarrow> real" where
  "fInsulation inp = (if insulation inp = EPR then 1.25 else 1.0)"

definition fMaterial :: "CalcInput \<Rightarrow> real" where
  "fMaterial inp = (if material inp = aluminio then 0.78 else 1.0)"

definition fTotal :: "CalcInput \<Rightarrow> real" where
  "fTotal inp = ft inp * fg inp * fInsulation inp * fMaterial inp"

subsection \<open>Step 3: the first cable whose corrected ampacity reaches the breaker\<close>

definition getIz :: "CalcInput \<Rightarrow> CableData \<Rightarrow> number" where
  "getIz inp cable =
     nmul (ToNumber (or_else (get (capacity cable) (methodCode inp)) (get (capacity cable) ''B1'')))
          (Num (fTotal inp))"

fun findCable_scan :: "CalcInput \<Rightarrow> number \<Rightarrow> CableData list \<Rightarrow> CableData option" where
  "findCable_scan inp minIz [] = None"
| "findCable_scan inp minIz (cable # rest) =
     (if nge (getIz inp cable) minIz then Some cable else findCable_scan inp minIz rest)"

definition findCable :: "CalcInput \<Rightarrow> number \<Rightarrow> CableData option" where
  "findCable inp minIz =
     (case findCable_scan inp minIz CABLE_TABLE of
        Some cable \<Rightarrow> Some cable
      | None \<Rightarrow> at_index CABLE_TABLE (int (length CABLE_TABLE) - 1))"

subsection \<open>Step 4: voltage drop\<close>

record VD =
  dV :: number
  dVPercent :: number

definition calculateVD :: "CalcInput \<Rightarrow> CableData \<Rightarrow> VD" where
  "calculateVD inp cable =
     (let R = (if material inp = aluminio then resistance cable * 1.6 else resistance cable);
          dv = (if systemType inp = trifasico
                then ndiv (nmul (nmul (nmul (Num (sqrt 3)) (lengthM inp)) (Ib inp)) (Num R)) (Num 1000)
                else ndiv (nmul (nmul (nmul (Num 2) (lengthM inp)) (Ib inp)) (Num R)) (Num 1000))
      in \<lparr>dV = dv, dVPercent = nmul (ndiv dv (voltage inp)) (Num 100)\<rparr>)"

definition limit :: "CalcInput \<Rightarrow> real" where
  "limit inp = (if loadType inp = alimentador then 7 else 4)"

subsection \<open>Step 5: upgrading the section while the drop exceeds the limit\<close>

text \<open>
  \<^verbatim>\<open>indexOf\<close> compares by identity; the entries of the table are pairwise different
  records, so identity and equality of entries coincide, and the entry after the selected
  one has the next index: the loop terminates.

  \<^verbatim>\<open>vd\<close> and \<^verbatim>\<open>Iz\<close> are recomputed from \<^verbatim>\<open>selectedCable\<close> in every
  iteration, as they were before the loop, so the selected cable is the whole loop state.
  An entry read past the end of the table would be \<^verbatim>\<open>undefined\<close>, and
  \<^verbatim>\<open>calculateVD\<close> would raise on reading its resistance.
\<close>

function upgrade :: "CalcInput \<Rightarrow> CableData \<Rightarrow> error + CableData" where
  "upgrade inp selectedCable =
     (if ngt (dVPercent (calculateVD inp selectedCable)) (Num (limit inp))
         \<and> indexOf CABLE_TABLE selectedCable < int (length CABLE_TABLE) - 1
      then (case at_index CABLE_TABLE (indexOf CABLE_TABLE selectedCable + 1) of
              None \<Rightarrow> Inl TypeError
            | Some next_cable \<Rightarrow> upgrade inp next_cable)
      else Inr selectedCable)"
  by pat_completeness auto
termination
proof (relation "measure (\<lambda>(inp, c). nat (int (length CABLE_TABLE) - indexOf CABLE_TABLE c))")
  show "wf (measure (\<lambda>(inp, c). nat (int (length CABLE_TABLE) - indexOf CABLE_TABLE c)))"
    by simp
next
  fix inp selectedCable next_cable
  assume c: "ngt (dVPercent (calculateVD inp selectedCable)) (Num (limit inp))
      \<and> indexOf CABLE_TABLE selectedCable < int (length CABLE_TABLE) - 1"
    and n: "at_index CABLE_TABLE (indexOf CABLE_TABLE selectedCable + 1) = Some next_cable"
  have nth: "indexOf xs (xs ! k) = int k" if "distinct xs" and "k < length xs"
    for xs :: "CableData list" and k
    using that
  proof (induction xs arbitrary: k)
    case Nil
    then show ?case by simp
  next
    case (Cons y ys)
    show ?case
    proof (cases k)
      case 0
      then show ?thesis by simp
    next
      case (Suc m)
      with Cons.prems have m: "m < length ys" and d: "distinct ys" and ne: "y \<noteq> ys ! m"
        by auto
      from Cons.IH [OF d m] ne Suc show ?thesis
        by (simp add: Let_def)
    qed
  qed
  have d: "distinct CABLE_TABLE"
    by (simp add: CABLE_TABLE_def)
  let ?i = "indexOf CABLE_TABLE selectedCable"
  from n have r: "0 \<le> ?i + 1" "?i + 1 < int (length CABLE_TABLE)"
    and y: "next_cable = CABLE_TABLE ! nat (?i + 1)"
    by (auto simp: at_index_def split: if_splits)
  from r have "nat (?i + 1) < length CABLE_TABLE" by simp
  from nth [OF d this] y r have "indexOf CABLE_TABLE next_cable = ?i + 1" by simp
  with c show "((inp, next_cable), (inp, selectedCable))
      \<in> measure (\<lambda>(inp, c). nat (int (length CABLE_TABLE) - indexOf CABLE_TABLE c))"
    by simp
qed

declare upgrade.simps [simp del]

subsection \<open>Steps 6 and 7: neutral, earth and conduit\<close>

definition neutralSectionOf :: "CalcInput \<Rightarrow> CableData \<Rightarrow> real" where
  "neutralSectionOf inp selectedCable =
     (if systemType inp = trifasico \<and> section_mm2 selectedCable > 25
      then (if section_mm2 selectedCable / 2 < 16 then 16 else section_mm2 selectedCable / 2)
      else section_mm2 selectedCable)"

definition earthSectionOf :: "CableData \<Rightarrow> real" where
  "earthSectionOf selectedCable =
     (if section_mm2 selectedCable > 16 \<and> section_mm2 selectedCable \<le> 35 then 16
      else if section_mm2 selectedCable > 35 then section_mm2 selectedCable / 2
      else section_mm2 selectedCable)"

definition totalArea :: "CalcInput \<Rightarrow> CableData \<Rightarrow> real" where
  "totalArea inp selectedCable =
     section_mm2 selectedCable * (if systemType inp = trifasico then 3 else 2)
       + neutralSectionOf inp selectedCable + earthSectionOf selectedCable"

text \<open>Four assignments in sequence: the last threshold that is exceeded decides.\<close>

definition conduitSizeOf :: "real \<Rightarrow> string" where
  "conduitSizeOf area =
     (let s0 = ''3/4\"'';
          s1 = (if area > 150 then ''1\"'' else s0);
          s2 = (if area > 300 then ''1 1/4\"'' else s1);
          s3 = (if area > 500 then ''1 1/2\"'' else s2);
          s4 = (if area > 800 then ''2\"'' else s3)
      in s4)"

subsection \<open>Step 8: short-circuit estimate\<close>

text \<open>
  \<^verbatim>\<open>CABLE_TABLE.find(c => c.section === section)?.resistance || 1\<close>: the resistance of
  the first entry with that section, and 1 when there is none (or when it is 0).
\<close>

definition tableResistance :: "number \<Rightarrow> real" where
  "tableResistance sec =
     (case find (\<lambda>c. Num (section_mm2 c) = sec) CABLE_TABLE of
        None \<Rightarrow> 1
      | Some c \<Rightarrow> if resistance c = 0 then 1 else resistance c)"

definition cableResistance :: "number \<Rightarrow> number \<Rightarrow> number" where
  "cableResistance len sec = nmul (Num (tableResistance sec)) (ndiv len (Num 1000))"

definition estimateShortCircuit :: "number \<Rightarrow> number \<Rightarrow> number \<Rightarrow> number" where
  "estimateShortCircuit volt len sec = ndiv volt (cableResistance len sec)"

subsection \<open>Steps 9 to 11: conformity, notes, bill of materials\<close>

definition curveNotes :: "CalcInput \<Rightarrow> diagnostic list" where
  "curveNotes inp =
     (if loadType inp = motor \<and> breakerCurve inp = B then [CurveBForMotor]
      else if loadType inp = iluminacao \<and> breakerCurve inp = D then [CurveDForLighting]
      else if loadType inp = tomadas \<and> breakerCurve inp = B then [CurveBForSockets]
      else [])"

definition notesOf :: "CalcInput \<Rightarrow> VD \<Rightarrow> number \<Rightarrow> number \<Rightarrow> bool \<Rightarrow> diagnostic list" where
  "notesOf inp vd Iz Isc icnConform =
     (if ngt (dVPercent vd) (Num (limit inp))
      then [VoltageDropAboveLimit (dVPercent vd) (limit inp)] else [])
     @ (if ngt (breakerRating inp) Iz then [BreakerAboveIz (breakerRating inp) Iz] else [])
     @ (if nlt (breakerRating inp) (Ib inp) then [BreakerBelowIb (breakerRating inp) (Ib inp)] else [])
     @ (if \<not> icnConform then [IscAboveIcn Isc (breakerIcn inp)] else [])
     @ curveNotes inp
     @ (if ngt (Ib inp) (Num 100) then [HighCurrent] else [])"

definition bomOf :: "CalcInput \<Rightarrow> CableData \<Rightarrow> real \<Rightarrow> real \<Rightarrow> string \<Rightarrow> bom_line list" where
  "bomOf inp selectedCable neutral earth conduit =
     [\<lparr>item = CaboFlexivel (section_mm2 selectedCable) (material inp) (insulation inp),
       quantity = Metres (nmul (lengthM inp) (Num (if systemType inp = trifasico then 3 else 2))),
       estimatedPrice = nmul (nmul (lengthM inp) (Num (section_mm2 selectedCable))) (Num 0.5)\<rparr>,
      \<lparr>item = CaboNeutro neutral,
       quantity = Metres (lengthM inp),
       estimatedPrice = nmul (nmul (lengthM inp) (Num neutral)) (Num 0.45)\<rparr>,
      \<lparr>item = CaboTerra earth,
       quantity = Metres (lengthM inp),
       estimatedPrice = nmul (nmul (lengthM inp) (Num earth)) (Num 0.45)\<rparr>,
      \<lparr>item = DisjuntorDIN (breakerRating inp) (breakerCurve inp) (breakerIcn inp),
       quantity = OneUnit,
       estimatedPrice = Num 25\<rparr>,
      \<lparr>item = Eletroduto conduit,
       quantity = Metres (lengthM inp),
       estimatedPrice = nmul (lengthM inp) (Num 5)\<rparr>]"

text \<open>
  The result for a given final cable: everything after the loop. \<^verbatim>\<open>breaker\<close> is the
  caller's \<^verbatim>\<open>breakerRating\<close>, never reassigned.
\<close>

definition resultFor :: "CalcInput \<Rightarrow> CableData \<Rightarrow> CalcResult" where
  "resultFor inp selectedCable =
     (let Iz = getIz inp selectedCable;
          vd = calculateVD inp selectedCable;
          neutral = neutralSectionOf inp selectedCable;
          earth = earthSectionOf selectedCable;
          conduit = conduitSizeOf (totalArea inp selectedCable);
          Isc = estimateShortCircuit (voltage inp) (lengthM inp) (Num (section_mm2 selectedCable));
          icnConform = nge (nmul (breakerIcn inp) (Num 1000)) Isc;
          conform = (nle (dVPercent vd) (Num (limit inp)) \<and> nle (breakerRating inp) Iz \<and> icnConform)
      in \<lparr>current = Ib inp,
          cableSection = section_mm2 selectedCable,
          neutralSection = neutral,
          earthSection = earth,
          conduitSize = conduit,
          res_breakerRating = breakerRating inp,
          res_breakerCurve = breakerCurve inp,
          res_breakerIcn = breakerIcn inp,
          voltageDrop = dV vd,
          voltageDropPercent = dVPercent vd,
          shortCircuitCurrent = Isc,
          isConform = conform,
          isIcnConform = icnConform,
          izCorrected = Iz,
          res_notes = notesOf inp vd Iz Isc icnConform,
          bom = bomOf inp selectedCable neutral earth conduit\<rparr>)"

text \<open>
  \<^verbatim>\<open>findCable\<close> returns \<^verbatim>\<open>undefined\<close> only for an empty table; \<^verbatim>\<open>getIz\<close> would
  then raise on reading \<^verbatim>\<open>capacity\<close>.
\<close>

definition calculateElectrical :: "CalcInput \<Rightarrow> error + CalcResult" where
  "calculateElectrical inp =
     (case findCable inp (breakerRating inp) of
        None \<Rightarrow> Inl TypeError
      | Some first_cable \<Rightarrow>
          (case upgrade inp first_cable of
             Inl e \<Rightarrow> Inl e
           | Inr selectedCable \<Rightarrow> Inr (resultFor inp selectedCable)))"

section \<open>The motor calculator\<close>

text \<open>
  \<^verbatim>\<open>BREAKER_RATINGS.find(r => r >= x) || 125\<close>, used by the motor and the panel
  calculators: the first rating that reaches \<open>x\<close>, and 125 when there is none.
\<close>

definition firstRatingOr125 :: "number \<Rightarrow> real" where
  "firstRatingOr125 x =
     (case find (\<lambda>r. nge (Num r) x) BREAKER_RATINGS of
        None \<Rightarrow> 125
      | Some r \<Rightarrow> if r = 0 then 125 else r)"

datatype StartingMethod = direta | estrela_triangulo | soft_starter

record MotorCalcInput =
  powerCV :: number
  motorVoltage :: number
  efficiency :: number
  motorPowerFactor :: number
  startingMethod :: StartingMethod

record MotorCalcResult =
  nominalCurrent :: number
  startingCurrent :: number
  breaker :: real
  relay :: number
  contactor :: string

definition calculateMotor :: "MotorCalcInput \<Rightarrow> MotorCalcResult" where
  "calculateMotor inp =
     (let powerW = nmul (powerCV inp) (Num 735.5);
          In = ndiv powerW
                 (nmul (nmul (nmul (Num (sqrt 3)) (motorVoltage inp))
                             (ndiv (efficiency inp) (Num 100)))
                       (motorPowerFactor inp));
          Ip0 = nmul In (Num 7);
          Ip1 = (if startingMethod inp = estrela_triangulo then nmul In (Num 2.3) else Ip0);
          Ip2 = (if startingMethod inp = soft_starter then nmul In (Num 3) else Ip1)
      in \<lparr>nominalCurrent = In,
          startingCurrent = Ip2,
          breaker = firstRatingOr125 (nmul In (Num 1.25)),
          relay = nmul In (Num 1.1),
          contactor = (if nlt In (Num 9) then ''CWM9''
                       else if nlt In (Num 12) then ''CWM12''
                       else if nlt In (Num 18) then ''CWM18''
                       else ''CWM25'')\<rparr>)"

section \<open>The panel (QDC) calculator\<close>

text \<open>
  The currents of the circuits are reals here: the comparator
  \<^verbatim>\<open>(a, b) => b.current - a.current\<close> is consistent on finite numbers only, and
  \<^verbatim>\<open>sort\<close> with an inconsistent comparator has an implementation-defined result.
  \<^verbatim>\<open>Array.prototype.sort\<close> is stable and sorts the array in place, returning the same
  array: \<^verbatim>\<open>input.circuits\<close> holds the sorted list after the call. The model returns
  the result together with the input as the call leaves it. The \<^verbatim>\<open>type\<close> of a
  circuit is a label that no computation reads.
\<close>

record Circuit =
  circuitId :: real
  circuitCurrent :: real
  circuitType :: string

record QDCCalcInput =
  circuits :: "Circuit list"

record Phase =
  phase :: string
  phaseCurrent :: real

record QDCCalcResult =
  totalCurrent :: real
  mainBreaker :: real
  drRating :: real
  dpsRating :: string
  busbarCurrent :: real
  phaseBalance :: "Phase list"

text \<open>\<^verbatim>\<open>xs.forEach((c, i) => { phases[i % 3].current += c.current })\<close>, from index \<open>i\<close> on.\<close>

fun addToPhases :: "Circuit list \<Rightarrow> nat \<Rightarrow> Phase list \<Rightarrow> Phase list" where
  "addToPhases [] i phases = phases"
| "addToPhases (c # cs) i phases =
     addToPhases cs (i + 1)
       (phases[i mod 3 := (phases ! (i mod 3))
                 \<lparr>phaseCurrent := phaseCurrent (phases ! (i mod 3)) + circuitCurrent c\<rparr>])"

definition sortDescending :: "Circuit list \<Rightarrow> Circuit list" where
  "sortDescending cs = sort_key (\<lambda>c. - circuitCurrent c) cs"

definition calculateQDC :: "QDCCalcInput \<Rightarrow> QDCCalcResult \<times> QDCCalcInput" where
  "calculateQDC inp =
     (let total = foldl (\<lambda>acc c. acc + circuitCurrent c) 0 (circuits inp);
          mainBr = firstRatingOr125 (Num (total * 0.8));
          phases0 = [\<lparr>phase = ''R'', phaseCurrent = 0\<rparr>,
                     \<lparr>phase = ''S'', phaseCurrent = 0\<rparr>,
                     \<lparr>phase = ''T'', phaseCurrent = 0\<rparr>];
          sorted_circuits = sortDescending (circuits inp);
          phases = addToPhases sorted_circuits 0 phases0
      in (\<lparr>totalCurrent = total,
           mainBreaker = mainBr,
           drRating = mainBr,
           dpsRating = ''20kA / 275V'',
           busbarCurrent = mainBr * 1.25,
           phaseBalance = phases\<rparr>,
          inp\<lparr>circuits := sorted_circuits\<rparr>))"

section \<open>The solar calculator\<close>

text \<open>
  \<^verbatim>\<open>calculateSolar\<close>, with its arithmetic as parameters: the multiplication, the
  division and the reading of a number literal. \<open>calculateSolar\<close> is the function on
  doubles; \<open>calculateSolar_exact\<close> is the same function in the exact arithmetic of the
  sections above.
\<close>

fun nceil :: "number \<Rightarrow> number" where
  "nceil (Num x) = Num (of_int \<lceil>x\<rceil>)"
| "nceil y = y"

record SolarInput =
  monthlyConsumption :: number
  solarIrradiation :: number
  panelPower :: number

record SolarResult =
  estimatedPanels :: number
  systemPower :: number
  monthlyGeneration :: number
  estimatedArea :: number

definition calculateSolar_with ::
  "(number \<Rightarrow> number \<Rightarrow> number) \<Rightarrow> (number \<Rightarrow> number \<Rightarrow> number) \<Rightarrow> (real \<Rightarrow> number)
     \<Rightarrow> SolarInput \<Rightarrow> SolarResult" where
  "calculateSolar_with times_op divide_op lit inp =
     (let dailyConsumption = divide_op (monthlyConsumption inp) (lit 30);
          systemPowerKW = divide_op (divide_op dailyConsumption (solarIrradiation inp)) (lit 0.8);
          panels = nceil (divide_op (times_op systemPowerKW (lit 1000)) (panelPower inp))
      in \<lparr>estimatedPanels = panels,
          systemPower = systemPowerKW,
          monthlyGeneration = times_op (times_op (times_op systemPowerKW (solarIrradiation inp)) (lit 30)) (lit 0.8),
          estimatedArea = times_op panels (lit 2)\<rparr>)"

definition calculateSolar :: "SolarInput \<Rightarrow> SolarResult" where
  "calculateSolar = calculateSolar_with fmul fdiv f64"

definition calculateSolar_exact :: "SolarInput \<Rightarrow> SolarResult" where
  "calculateSolar_exact = calculateSolar_with nmul ndiv Num"

section \<open>The inputs of the scenarios\<close>

text \<open>
  Scenario A (lighting circuit), Scenario B (motor, direct start) and the panel of
  Scenario C are the inputs of the specification, which are also the defaults of the
  application's forms (the label of the second circuit is written without its accents);
  the others are the inputs of the examples below.
\<close>

definition scenarioA :: CalcInput where
  "scenarioA =
     \<lparr>systemType = monofasico, voltage = Num 127, powerW = Num 1200, powerFactor = Num 1.0,
      loadType = iluminacao, lengthM = Num 20, methodCode = ''B1'', temp = Num 30,
      grouping = Num 1, material = cobre, insulation = PVC, breakerCurve = C,
      breakerIcn = Num 3.0, breakerRating = Num 16\<rparr>"

definition scenarioB :: MotorCalcInput where
  "scenarioB = \<lparr>powerCV = Num 5, motorVoltage = Num 380, efficiency = Num 85,
                 motorPowerFactor = Num 0.8, startingMethod = direta\<rparr>"

definition motor100CV :: MotorCalcInput where
  "motor100CV = \<lparr>powerCV = Num 100, motorVoltage = Num 220, efficiency = Num 85,
                  motorPowerFactor = Num 0.8, startingMethod = direta\<rparr>"

definition scenarioC :: QDCCalcInput where
  "scenarioC = \<lparr>circuits =
     [\<lparr>circuitId = 1, circuitCurrent = 20, circuitType = ''TUG''\<rparr>,
      \<lparr>circuitId = 2, circuitCurrent = 15, circuitType = ''Iluminacao''\<rparr>,
      \<lparr>circuitId = 3, circuitCurrent = 32, circuitType = ''Chuveiro''\<rparr>]\<rparr>"

definition solar100 :: SolarInput where
  "solar100 = \<lparr>monthlyConsumption = Num 100, solarIrradiation = Num 5, panelPower = Num 550\<rparr>"

section \<open>The engine always returns\<close>

text \<open>
  Facts about the table scan and the upgrade loop that the properties below share: the
  scan and the loop stay inside \<open>CABLE_TABLE\<close>, the loop terminates with a cable, and
  any property that carries over from one table entry to the next survives the loop.
\<close>

lemma indexOf_mem: "x \<in> set xs \<Longrightarrow> 0 \<le> indexOf xs x \<and> indexOf xs x < int (length xs) \<and> xs ! nat (indexOf xs x) = x"
proof (induction xs)
  case Nil
  then show ?case by simp
next
  case (Cons y ys)
  show ?case
  proof (cases "y = x")
    case True
    then show ?thesis by simp
  next
    case False
    with Cons.prems have "x \<in> set ys" by simp
    from Cons.IH [OF this] False show ?thesis
      by (simp add: Let_def nat_add_distrib)
  qed
qed

lemma upgrade_invariant:
  assumes start: "c \<in> set CABLE_TABLE" "P c"
    and step: "\<And>k. Suc k < length CABLE_TABLE \<Longrightarrow> P (CABLE_TABLE ! k) \<Longrightarrow> P (CABLE_TABLE ! Suc k)"
  shows "\<exists>c'. upgrade inp c = Inr c' \<and> c' \<in> set CABLE_TABLE \<and> P c'"
  using start
proof (induction inp c rule: upgrade.induct)
  case (1 inp selectedCable)
  let ?i = "indexOf CABLE_TABLE selectedCable"
  show ?case
  proof (cases "ngt (dVPercent (calculateVD inp selectedCable)) (Num (limit inp))
         \<and> ?i < int (length CABLE_TABLE) - 1")
    case False
    with "1.prems" show ?thesis
      by (subst upgrade.simps) auto
  next
    case True
    from indexOf_mem [OF "1.prems"(1)]
    have i: "0 \<le> ?i" "CABLE_TABLE ! nat ?i = selectedCable" by auto
    from True i have lt: "Suc (nat ?i) < length CABLE_TABLE" by linarith
    define nxt where "nxt = CABLE_TABLE ! Suc (nat ?i)"
    from lt i have at: "at_index CABLE_TABLE (?i + 1) = Some nxt"
      by (simp add: at_index_def nxt_def nat_add_distrib)
    from lt have mem: "nxt \<in> set CABLE_TABLE" by (simp add: nxt_def)
    from step [OF lt] i "1.prems"(2) have P: "P nxt" by (simp add: nxt_def)
    from "1.IH" [OF True at mem P] obtain c' where
      "upgrade inp nxt = Inr c'" "c' \<in> set CABLE_TABLE" "P c'" by blast
    with True at show ?thesis
      by (subst upgrade.simps) auto
  qed
qed

lemma findCable_scan_Some:
  "findCable_scan inp m xs = Some c \<Longrightarrow> c \<in> set xs \<and> nge (getIz inp c) m"
  by (induction xs) (auto split: if_splits)


lemma findCable_mem: "\<exists>c. findCable inp m = Some c \<and> c \<in> set CABLE_TABLE"
proof (cases "findCable_scan inp m CABLE_TABLE")
  case None
  then show ?thesis
    by (simp add: findCable_def at_index_def CABLE_TABLE_def)
next
  case (Some c)
  with findCable_scan_Some [OF Some] show ?thesis
    by (simp add: findCable_def)
qed

lemma calculateElectrical_result:
  "\<exists>c. c \<in> set CABLE_TABLE \<and> calculateElectrical inp = Inr (resultFor inp c)"
proof -
  obtain c0 where c0: "findCable inp (breakerRating inp) = Some c0" "c0 \<in> set CABLE_TABLE"
    using findCable_mem by blast
  from upgrade_invariant [of c0 "\<lambda>c. True" inp] c0(2)
  obtain c where "upgrade inp c0 = Inr c" "c \<in> set CABLE_TABLE" by blast
  with c0 show ?thesis
    by (auto simp: calculateElectrical_def)
qed

subsection \<open>Facts about the tables\<close>













lemma find_None_list_all: "list_all (\<lambda>x. \<not> P x) xs \<Longrightarrow> find P xs = None"
  by (induction xs) auto



lemmas calc_defs = calculateElectrical_def findCable_def CABLE_TABLE_def getIz_def get_def
  fTotal_def ft_def fg_def fInsulation_def fMaterial_def TEMPERATURE_FACTORS_def
  GROUPING_FACTORS_def nge_def ngt_def calculateVD_def Ib_def limit_def at_index_def
  resultFor_def neutralSectionOf_def earthSectionOf_def totalArea_def conduitSizeOf_def
  tableResistance_def cableResistance_def estimateShortCircuit_def notesOf_def
  curveNotes_def bomOf_def Object_prototype_keys_def of_sign_def Let_def

section \<open>Conformity flags\<close>

text \<open>
  C1. The claim: \<open>isConform\<close> is true exactly when the percent drop is within the
  limit and the proposed breaker rating is at most the corrected ampacity of the final
  cable, independently of \<open>isIcnConform\<close>.

  The source computes \<^verbatim>\<open>vd.dVPercent <= limit && breaker <= Iz && isIcnConform\<close>:
  the interrupting-capacity flag is a third conjunct. Scenario A with a breaker of 0.1 kA
  interrupting capacity is within the drop limit (3.6 percent) and within the ampacity
  (16 A against 17.5 A), yet \<open>isConform\<close> is false, while Scenario A itself (3 kA)
  conforms: the two inputs differ in \<open>breakerIcn\<close> only.
\<close>

theorem isConform_depends_on_isIcnConform:
  "\<exists>r r'. calculateElectrical scenarioA = Inr r
      \<and> calculateElectrical (scenarioA\<lparr>breakerIcn := Num 0.1\<rparr>) = Inr r'
      \<and> isConform r
      \<and> nle (voltageDropPercent r') (Num (limit scenarioA))
      \<and> nle (res_breakerRating r') (izCorrected r')
      \<and> \<not> isIcnConform r'
      \<and> \<not> isConform r'"
  by (simp add: scenarioA_def calc_defs upgrade.simps)

text \<open>
  C1, as the code has it: for every input the engine returns a result whose
  \<open>isConform\<close> is the conjunction of three tests, the percent drop against the limit,
  the proposed breaker rating against the corrected ampacity of the final cable, and
  \<open>isIcnConform\<close>; and \<open>isIcnConform\<close> is the test of the interrupting capacity in
  amperes against the estimated short-circuit current.
\<close>

theorem isConform_is_conjunction_of_three:
  "\<exists>r. calculateElectrical inp = Inr r
     \<and> isIcnConform r = nge (nmul (breakerIcn inp) (Num 1000)) (shortCircuitCurrent r)
     \<and> isConform r =
         (nle (voltageDropPercent r) (Num (limit inp))
          \<and> nle (breakerRating inp) (izCorrected r)
          \<and> isIcnConform r)"
proof -
  obtain c where "calculateElectrical inp = Inr (resultFor inp c)"
    using calculateElectrical_result by blast
  then show ?thesis
    by (simp add: resultFor_def Let_def)
qed

section \<open>Voltage drop against circuit length\<close>




section \<open>Ampacity of the returned cable\<close>



section \<open>Scenario A\<close>

text \<open>
  C4. On the Scenario A input the engine returns a design current of 1200/127 A
  (9.45 to two decimals), the 1.5 mm2 section with corrected ampacity 17.5 A, a drop of
  2904/635 V (4.57) that is 58080/16129 percent (3.60) and within the limit of 4, and
  both conformity flags true.
\<close>

theorem scenario_A:
  "\<exists>r. calculateElectrical scenarioA = Inr r
     \<and> current r = Num (1200 / 127) \<and> \<bar>1200 / 127 - 9.45\<bar> < (0.005 :: real)
     \<and> cableSection r = 1.5
     \<and> izCorrected r = Num 17.5
     \<and> voltageDrop r = Num (2904 / 635) \<and> \<bar>2904 / 635 - 4.57\<bar> < (0.005 :: real)
     \<and> voltageDropPercent r = Num (58080 / 16129) \<and> \<bar>58080 / 16129 - 3.60\<bar> < (0.005 :: real)
     \<and> limit scenarioA = 4
     \<and> nle (voltageDropPercent r) (Num (limit scenarioA))
     \<and> isIcnConform r
     \<and> isConform r"
  by (simp add: scenarioA_def calc_defs upgrade.simps)

section \<open>Conduit sizing\<close>

text \<open>
  C5. The claim: the total section is the phase section times the number of phase
  conductors, 1 for single-phase, 2 for two-phase, 3 for three-phase, plus neutral plus
  earth, mapped through the thresholds 150, 300, 500, 800.

  The source multiplies by \<^verbatim>\<open>systemType === 'trifasico' ? 3 : 2\<close>: a single-phase
  circuit counts two conductors, not one. Scenario A with a 250 A breaker is single-phase
  and ends on 120 mm2 with neutral 120 and earth 60: with one phase conductor the total
  would be 300, which maps to the 1-inch size, but the engine returns 1 1/4 inch (its
  total is 420).
\<close>

theorem single_phase_counts_two_conductors:
  "\<exists>r. systemType (scenarioA\<lparr>breakerRating := Num 250\<rparr>) = monofasico
     \<and> calculateElectrical (scenarioA\<lparr>breakerRating := Num 250\<rparr>) = Inr r
     \<and> cableSection r = 120 \<and> neutralSection r = 120 \<and> earthSection r = 60
     \<and> cableSection r * 1 + neutralSection r + earthSection r = 300
     \<and> conduitSizeOf 300 = ''1\"''
     \<and> conduitSize r = ''1 1/4\"''"
  by (simp add: scenarioA_def calc_defs upgrade.simps)

text \<open>
  C5, as the code has it: the multiplier is 3 for three-phase and 2 otherwise
  (single-phase and two-phase alike); the total is mapped to the largest threshold it
  exceeds.
\<close>

theorem conduit_from_total_section:
  "\<exists>r. calculateElectrical inp = Inr r
     \<and> conduitSize r =
        (let total = cableSection r * (if systemType inp = trifasico then 3 else 2)
                      + neutralSection r + earthSection r
         in if total > 800 then ''2\"''
            else if total > 500 then ''1 1/2\"''
            else if total > 300 then ''1 1/4\"''
            else if total > 150 then ''1\"''
            else ''3/4\"'')"
proof -
  obtain c where "calculateElectrical inp = Inr (resultFor inp c)"
    using calculateElectrical_result by blast
  then show ?thesis
    by (simp add: resultFor_def totalArea_def conduitSizeOf_def Let_def)
qed

section \<open>The panel calculator and its argument\<close>

text \<open>
  C6. The claim: \<open>calculateQDC\<close> leaves the caller's circuit list as it was.

  The source sorts \<^verbatim>\<open>input.circuits\<close> itself. On the circuits 20 A, 15 A, 32 A (the
  panel of Scenario C) the caller's list is 32 A, 20 A, 15 A after the call.
\<close>

theorem calculateQDC_reorders_the_callers_circuits:
  "circuits (snd (calculateQDC scenarioC)) =
     [\<lparr>circuitId = 3, circuitCurrent = 32, circuitType = ''Chuveiro''\<rparr>,
      \<lparr>circuitId = 1, circuitCurrent = 20, circuitType = ''TUG''\<rparr>,
      \<lparr>circuitId = 2, circuitCurrent = 15, circuitType = ''Iluminacao''\<rparr>]
   \<and> circuits (snd (calculateQDC scenarioC)) \<noteq> circuits scenarioC
   \<and> totalCurrent (fst (calculateQDC scenarioC)) = 67
   \<and> mainBreaker (fst (calculateQDC scenarioC)) = 63"
  by (simp add: calculateQDC_def scenarioC_def sortDescending_def firstRatingOr125_def
      BREAKER_RATINGS_def nge_def Let_def)

section \<open>The motor breaker\<close>

lemma sqrt3_bounds: "1.732 < sqrt 3" "sqrt 3 < 1.7321"
  by (rule real_less_rsqrt, simp add: power2_eq_square)
     (rule real_less_lsqrt, simp_all add: power2_eq_square)

lemma BREAKER_RATINGS_sorted: "sorted BREAKER_RATINGS"
  by (simp add: BREAKER_RATINGS_def)

lemma firstRatingOr125_least:
  assumes "r \<in> set BREAKER_RATINGS" and "nge (Num r) x"
  shows "firstRatingOr125 x \<in> set BREAKER_RATINGS \<and> nge (Num (firstRatingOr125 x)) x
       \<and> firstRatingOr125 x \<le> r"
proof -
  let ?P = "\<lambda>r. nge (Num r) x"
  from assms obtain b where f: "find ?P BREAKER_RATINGS = Some b"
    by (cases "find ?P BREAKER_RATINGS") (auto simp: find_None_iff)
  then obtain i where i: "i < length BREAKER_RATINGS" "?P (BREAKER_RATINGS ! i)"
    "b = BREAKER_RATINGS ! i" "\<forall>j<i. \<not> ?P (BREAKER_RATINGS ! j)"
    by (auto simp: find_Some_iff)
  from i have mem: "b \<in> set BREAKER_RATINGS" by simp
  then have nz: "b \<noteq> 0" by (auto simp: BREAKER_RATINGS_def)
  from assms(1) obtain j where j: "j < length BREAKER_RATINGS" "r = BREAKER_RATINGS ! j"
    by (auto simp: in_set_conv_nth)
  with assms(2) i(4) have "i \<le> j" by (meson not_le)
  from sorted_nth_mono [OF BREAKER_RATINGS_sorted this j(1)] i(3) j(2) have "b \<le> r" by simp
  with f nz mem i show ?thesis by (simp add: firstRatingOr125_def)
qed

lemma firstRatingOr125_none:
  assumes "list_all (\<lambda>r. \<not> nge (Num r) x) BREAKER_RATINGS"
  shows "firstRatingOr125 x = 125"
  using find_None_list_all [OF assms] by (simp add: firstRatingOr125_def)

lemma scenarioB_In:
  "nominalCurrent (calculateMotor scenarioB) = Num (3677.5 / (sqrt 3 * 258.4))"
  by (simp add: calculateMotor_def scenarioB_def Let_def)

lemma scenarioB_In_bounds: "8.216 < 3677.5 / (sqrt 3 * 258.4)" "3677.5 / (sqrt 3 * 258.4) < 8.218"
  using sqrt3_bounds by (simp_all add: field_simps)

lemma motor100CV_In:
  "nominalCurrent (calculateMotor motor100CV) = Num (73550 / (sqrt 3 * 149.6))"
  by (simp add: calculateMotor_def motor100CV_def Let_def)

lemma motor100CV_required: "125 < 73550 / (sqrt 3 * 149.6) * 1.25"
  using sqrt3_bounds by (simp add: field_simps)

lemma motor100CV_no_rating:
  "list_all (\<lambda>r. \<not> nge (Num r) (nmul (nominalCurrent (calculateMotor motor100CV)) (Num 1.25)))
     BREAKER_RATINGS"
  unfolding motor100CV_In using motor100CV_required
  by (simp add: BREAKER_RATINGS_def nge_def)

lemma breaker_def': "breaker (calculateMotor inp) =
    firstRatingOr125 (nmul (nominalCurrent (calculateMotor inp)) (Num 1.25))"
  by (simp add: calculateMotor_def Let_def)

text \<open>
  C7. The claim: the breaker of \<open>calculateMotor\<close> is the smallest element of
  \<open>BREAKER_RATINGS\<close> that is at least 1.25 times the nominal current; and the
  Scenario B values.

  The first part fails when no rating is large enough: the source then returns 125
  (\<^verbatim>\<open>|| 125\<close>), which is below the required value. A 100 CV motor at 220 V has a
  nominal current of about 284 A and needs 355 A; the breaker returned is 125.
\<close>

theorem breaker_125_below_required:
  "breaker (calculateMotor motor100CV) = 125
   \<and> \<not> nge (Num (breaker (calculateMotor motor100CV)))
            (nmul (nominalCurrent (calculateMotor motor100CV)) (Num 1.25))"
proof -
  from firstRatingOr125_none [OF motor100CV_no_rating]
  have "breaker (calculateMotor motor100CV) = 125"
    by (simp add: breaker_def')
  with motor100CV_required show ?thesis
    unfolding motor100CV_In by (simp add: nge_def)
qed

text \<open>
  C7, as the code has it: when some rating reaches 1.25 times the nominal current, the
  breaker is the smallest such rating; when none does, the breaker is 125. On Scenario B
  the nominal current is 3677.5 / (sqrt 3 * 258.4) (8.22 A), the starting current is seven
  times that (57.5 A), the breaker is 13 A and the contactor is the class for currents
  under 9 A.
\<close>

theorem motor_breaker_and_scenario_B:
  "(r \<in> set BREAKER_RATINGS \<and> nge (Num r) (nmul (nominalCurrent (calculateMotor inp)) (Num 1.25)) \<longrightarrow>
         breaker (calculateMotor inp) \<in> set BREAKER_RATINGS
       \<and> nge (Num (breaker (calculateMotor inp))) (nmul (nominalCurrent (calculateMotor inp)) (Num 1.25))
       \<and> breaker (calculateMotor inp) \<le> r)
   \<and> (list_all (\<lambda>r. \<not> nge (Num r) (nmul (nominalCurrent (calculateMotor inp)) (Num 1.25))) BREAKER_RATINGS \<longrightarrow>
         breaker (calculateMotor inp) = 125)
   \<and> nominalCurrent (calculateMotor scenarioB) = Num (3677.5 / (sqrt 3 * 258.4))
   \<and> \<bar>3677.5 / (sqrt 3 * 258.4) - 8.22\<bar> < 0.005
   \<and> startingCurrent (calculateMotor scenarioB) = Num (3677.5 / (sqrt 3 * 258.4) * 7)
   \<and> \<bar>3677.5 / (sqrt 3 * 258.4) * 7 - 57.5\<bar> < 0.05
   \<and> breaker (calculateMotor scenarioB) = 13
   \<and> contactor (calculateMotor scenarioB) = ''CWM9''
   \<and> nlt (nominalCurrent (calculateMotor scenarioB)) (Num 9)"
proof -
  let ?x = "nmul (nominalCurrent (calculateMotor inp)) (Num 1.25)"
  have b: "breaker (calculateMotor inp) = firstRatingOr125 ?x"
    by (rule breaker_def')
  have least: "r \<in> set BREAKER_RATINGS \<and> nge (Num r) ?x \<longrightarrow>
         breaker (calculateMotor inp) \<in> set BREAKER_RATINGS
       \<and> nge (Num (breaker (calculateMotor inp))) ?x
       \<and> breaker (calculateMotor inp) \<le> r"
    unfolding b using firstRatingOr125_least [of r ?x] by blast
  have none: "list_all (\<lambda>r. \<not> nge (Num r) ?x) BREAKER_RATINGS \<longrightarrow>
         breaker (calculateMotor inp) = 125"
    unfolding b using firstRatingOr125_none [of ?x] by blast
  note In = scenarioB_In
  note bd = scenarioB_In_bounds
  have a1: "\<bar>3677.5 / (sqrt 3 * 258.4) - 8.22\<bar> < 0.005"
    using bd by (simp add: abs_less_iff)
  have a2: "\<bar>3677.5 / (sqrt 3 * 258.4) * 7 - 57.5\<bar> < 0.05"
    using bd by (simp add: abs_less_iff)
  have Ip: "startingCurrent (calculateMotor scenarioB) = Num (3677.5 / (sqrt 3 * 258.4) * 7)"
    by (simp add: calculateMotor_def scenarioB_def Let_def)
  have bB: "breaker (calculateMotor scenarioB) = 13"
  proof -
    define y where "y = 3677.5 / (sqrt 3 * 258.4)"
    from bd have y: "8.216 < y" "y < 8.218" by (simp_all add: y_def)
    have "breaker (calculateMotor scenarioB) = firstRatingOr125 (Num (y * 1.25))"
      by (simp add: calculateMotor_def scenarioB_def Let_def y_def)
    also from y have "\<dots> = 13"
      by (simp add: firstRatingOr125_def BREAKER_RATINGS_def nge_def)
    finally show ?thesis .
  qed
  have lt9: "nlt (nominalCurrent (calculateMotor scenarioB)) (Num 9)"
    unfolding In using bd by simp
  have cB: "contactor (calculateMotor scenarioB) = ''CWM9''"
    using lt9 by (simp add: calculateMotor_def Let_def)
  from least none In a1 a2 Ip bB cB lt9 show ?thesis by blast
qed

theorem motor_breaker_and_scenario_B_witness:
  "13 \<in> set BREAKER_RATINGS
   \<and> nge (Num 13) (nmul (nominalCurrent (calculateMotor scenarioB)) (Num 1.25))
   \<and> breaker (calculateMotor scenarioB) \<in> set BREAKER_RATINGS
   \<and> nge (Num (breaker (calculateMotor scenarioB)))
          (nmul (nominalCurrent (calculateMotor scenarioB)) (Num 1.25))
   \<and> breaker (calculateMotor scenarioB) \<le> 13
   \<and> list_all (\<lambda>r. \<not> nge (Num r) (nmul (nominalCurrent (calculateMotor motor100CV)) (Num 1.25)))
        BREAKER_RATINGS
   \<and> breaker (calculateMotor motor100CV) = 125"
proof -
  have m: "13 \<in> set BREAKER_RATINGS" by (simp add: BREAKER_RATINGS_def)
  have g: "nge (Num 13) (nmul (nominalCurrent (calculateMotor scenarioB)) (Num 1.25))"
    unfolding scenarioB_In using scenarioB_In_bounds by (simp add: nge_def)
  from motor_breaker_and_scenario_B [of 13 scenarioB] m g
  have 1: "breaker (calculateMotor scenarioB) \<in> set BREAKER_RATINGS
     \<and> nge (Num (breaker (calculateMotor scenarioB)))
          (nmul (nominalCurrent (calculateMotor scenarioB)) (Num 1.25))
     \<and> breaker (calculateMotor scenarioB) \<le> 13"
    by blast
  from motor_breaker_and_scenario_B [of 13 motor100CV] motor100CV_no_rating
  have 2: "breaker (calculateMotor motor100CV) = 125"
    by blast
  from m g 1 2 motor100CV_no_rating show ?thesis by blast
qed

section \<open>Fallbacks for keys that are not in a table\<close>

text \<open>
  The engine returns a result for every input: no array read leaves the table and the
  loop terminates. A temperature or a grouping count that is no key of its table
  contributes the factor 1, and a method code that is neither a key of the capacity map
  nor the name of an inherited property is replaced by \<^verbatim>\<open>'B1'\<close>.
\<close>

lemma calculateElectrical_never_raises: "\<exists>r. calculateElectrical inp = Inr r"
  using calculateElectrical_result [of inp] by blast

lemma ft_absent: "get_num TEMPERATURE_FACTORS (temp inp) = Undefined \<Longrightarrow> ft inp = 1"
  by (simp add: ft_def)

lemma fg_absent: "get_num GROUPING_FACTORS (grouping inp) = Undefined \<Longrightarrow> fg inp = 1"
  by (simp add: fg_def)

lemma getIz_fallback_B1:
  assumes "map_of (capacity c) (methodCode inp) = None"
    and "methodCode inp \<notin> set Object_prototype_keys"
  shows "getIz inp c = nmul (ToNumber (get (capacity c) ''B1'')) (Num (fTotal inp))"
  using assms by (simp add: getIz_def get_def)

text \<open>
  C8. The claim: the engine never raises, an absent temperature or grouping key gives the
  neutral factor 1.0, and an installation-method code absent from a cable's capacity map
  falls back to the \<^verbatim>\<open>'B1'\<close> capacity.

  The last part fails for a method code that names a property every object inherits.
  \<^verbatim>\<open>'A1'\<close> and \<^verbatim>\<open>'constructor'\<close> are both absent from every capacity map of the
  table. With \<^verbatim>\<open>'A1'\<close> Scenario A is sized on the B1 column (1.5 mm2, 17.5 A, conform).
  With \<^verbatim>\<open>'constructor'\<close> the read \<^verbatim>\<open>cable.capacity[method]\<close> yields the inherited
  function, which is truthy, so \<^verbatim>\<open>||\<close> keeps it; its product with the derating factor
  is \<^verbatim>\<open>NaN\<close>, no cable passes \<^verbatim>\<open>Iz >= minIz\<close>, and the engine returns the largest
  section with a \<^verbatim>\<open>NaN\<close> ampacity, not conform.
\<close>

theorem inherited_method_key_is_not_replaced_by_B1:
  "\<exists>r r'. list_all (\<lambda>c. map_of (capacity c) ''constructor'' = None) CABLE_TABLE
     \<and> list_all (\<lambda>c. map_of (capacity c) ''A1'' = None) CABLE_TABLE
     \<and> calculateElectrical (scenarioA\<lparr>methodCode := ''A1''\<rparr>) = Inr r
     \<and> cableSection r = 1.5 \<and> izCorrected r = Num 17.5 \<and> isConform r
     \<and> calculateElectrical (scenarioA\<lparr>methodCode := ''constructor''\<rparr>) = Inr r'
     \<and> cableSection r' = 120 \<and> izCorrected r' = NaN \<and> \<not> isConform r'"
  by (simp add: scenarioA_def calc_defs upgrade.simps)

section \<open>Properties of the rounded arithmetic\<close>

lemmas f64_eval = f64_def round_even_def expo.simps Let_def power_int_minus

text \<open>The literals \<^verbatim>\<open>30\<close> and \<^verbatim>\<open>0.8\<close> as doubles.\<close>

lemma f64_30: "f64 30 = Num 30"
  by (simp add: f64_eval)

lemma f64_08: "f64 0.8 = Num (3602879701896397 / 2 ^ 52)"
  by (simp add: f64_eval)

text \<open>The relative error of one rounding.\<close>

lemma expo_bounds: "0 < x \<Longrightarrow> 2 powi expo x \<le> x \<and> x < 2 powi (expo x + 1)"
proof (induction x rule: expo.induct)
  case (1 x)
  show ?case
  proof (cases "x < 1")
    case True
    with "1.prems" have e: "expo x = expo (2 * x) - 1" by (subst expo.simps) simp
    from "1.IH"(1) True "1.prems" have "2 powi expo (2 * x) \<le> 2 * x \<and> 2 * x < 2 powi (expo (2 * x) + 1)"
      by simp
    then show ?thesis unfolding e by (simp add: power_int_diff power_int_add)
  next
    case False
    show ?thesis
    proof (cases "2 \<le> x")
      case True
      with False "1.prems" have e: "expo x = expo (x / 2) + 1" by (subst expo.simps) simp
      from "1.IH"(2) True False "1.prems" have "2 powi expo (x / 2) \<le> x / 2 \<and> x / 2 < 2 powi (expo (x / 2) + 1)"
        by simp
      then show ?thesis unfolding e by (simp add: power_int_add)
    next
      case b: False
      with False "1.prems" have "expo x = 0" by (subst expo.simps) simp
      with False b show ?thesis by simp
    qed
  qed
qed

lemma round_even_err: "\<bar>of_int (round_even y) - y\<bar> \<le> 1 / 2"
proof -
  have "of_int \<lfloor>y\<rfloor> \<le> y" "y < of_int \<lfloor>y\<rfloor> + 1" by linarith+
  then show ?thesis
    by (auto simp: round_even_def Let_def)
qed

lemma f64_rel:
  assumes lo: "1 / 2 ^ 1022 \<le> \<bar>x\<bar>" and hi: "\<bar>x\<bar> < 2 ^ 1023"
  shows "\<exists>d. \<bar>d\<bar> \<le> 1 / 2 ^ 53 \<and> f64 x = Num (x * (1 + d))"
proof -
  from lo have x0: "x \<noteq> 0" "0 < \<bar>x\<bar>" by auto
  define e where "e = expo \<bar>x\<bar>"
  from expo_bounds [OF x0(2)] have eb: "2 powi e \<le> \<bar>x\<bar>" "\<bar>x\<bar> < 2 powi (e + 1)"
    by (simp_all add: e_def)
  have "(2::real) powi (- 1022) < 2 powi (e + 1)"
    using lo eb(2) by (simp add: power_int_minus_divide)
  moreover have "(2::real) powi (e + 1) \<le> 2 powi (- 1022)" if "e + 1 \<le> - 1022"
    using power_int_increasing [OF that, of "2::real"] by simp
  ultimately have "- 1022 < e + 1" by force
  then have emax: "max e (- 1022) = e" by simp
  define u :: real where "u = 2 powi (e - 52)"
  have u0: "0 < u" by (simp add: u_def)
  define r where "r = of_int (round_even (x / u)) * u"
  have "r - x = (of_int (round_even (x / u)) - x / u) * u"
    using u0 by (simp add: r_def left_diff_distrib)
  then have "\<bar>r - x\<bar> = \<bar>of_int (round_even (x / u)) - x / u\<bar> * u"
    using u0 by (simp add: abs_mult)
  also have "\<dots> \<le> 1 / 2 * u"
    using round_even_err [of "x / u"] u0 by (intro mult_right_mono) simp_all
  also have "1 / 2 * u = 2 powi e / 2 ^ 53"
    by (simp add: u_def power_int_diff)
  also have "\<dots> \<le> \<bar>x\<bar> / 2 ^ 53"
    using eb(1) by (simp add: divide_right_mono)
  finally have err: "\<bar>r - x\<bar> \<le> \<bar>x\<bar> / 2 ^ 53" .
  define d where "d = (r - x) / x"
  have d: "\<bar>d\<bar> \<le> 1 / 2 ^ 53"
    using err x0 by (simp add: d_def field_simps)
  have rx: "r = x * (1 + d)" using x0 by (simp add: d_def field_simps)
  have "\<bar>r\<bar> \<le> \<bar>x\<bar> + \<bar>r - x\<bar>" by simp
  also have "\<dots> \<le> \<bar>x\<bar> + \<bar>x\<bar> / 2 ^ 53" using err by simp
  also have "\<dots> \<le> 2 * \<bar>x\<bar>" by (simp add: field_simps)
  also have "\<dots> < 2 ^ 1024" using hi by simp
  finally have "\<not> 2 ^ 1024 \<le> \<bar>r\<bar>" by simp
  then have "f64 x = Num r"
    using x0 emax by (simp add: f64_def Let_def e_def [symmetric] u_def [symmetric] r_def [symmetric])
  with d rx show ?thesis by blast
qed

text \<open>
  \<open>mag k x\<close>: the magnitude of \<open>x\<close> lies between \<open>2^-k\<close> and \<open>2^k\<close>. A product
  or quotient of such numbers, rounded, stays in such a range, so a short chain of
  operations on inputs of moderate magnitude neither overflows nor leaves the normal
  range, and each operation has a relative error of at most \<open>2^-53\<close>.
\<close>

definition mag :: "nat \<Rightarrow> real \<Rightarrow> bool" where
  "mag k x \<longleftrightarrow> 1 / 2 ^ k \<le> \<bar>x\<bar> \<and> \<bar>x\<bar> \<le> 2 ^ k"

lemma mag_nonzero: "mag k x \<Longrightarrow> x \<noteq> 0"
proof
  assume "mag k x" and "x = 0"
  then have "1 / (2::real) ^ k \<le> 0" by (simp add: mag_def)
  moreover have "0 < 1 / (2::real) ^ k" by simp
  ultimately show False by linarith
qed

lemma mag_mult: "mag j a \<Longrightarrow> mag k b \<Longrightarrow> mag (j + k) (a * b)"
  unfolding mag_def
proof (intro conjI)
  assume a: "1 / 2 ^ j \<le> \<bar>a\<bar> \<and> \<bar>a\<bar> \<le> 2 ^ j" and b: "1 / 2 ^ k \<le> \<bar>b\<bar> \<and> \<bar>b\<bar> \<le> 2 ^ k"
  have "1 / 2 ^ (j + k) = (1 / 2 ^ j) * (1 / 2 ^ k :: real)" by (simp add: power_add)
  also have "\<dots> \<le> \<bar>a\<bar> * \<bar>b\<bar>" using a b by (intro mult_mono) simp_all
  finally show "1 / 2 ^ (j + k) \<le> \<bar>a * b\<bar>" by (simp add: abs_mult)
  have "\<bar>a\<bar> * \<bar>b\<bar> \<le> 2 ^ j * 2 ^ k" using a b by (intro mult_mono) simp_all
  then show "\<bar>a * b\<bar> \<le> 2 ^ (j + k)" by (simp add: abs_mult power_add)
qed

lemma mag_inverse: "mag k b \<Longrightarrow> mag k (1 / b)"
  unfolding mag_def
proof (intro conjI)
  assume b: "1 / 2 ^ k \<le> \<bar>b\<bar> \<and> \<bar>b\<bar> \<le> 2 ^ k"
  have "0 < 1 / (2::real) ^ k" by simp
  with b have pos: "0 < \<bar>b\<bar>" by linarith
  from b pos have "1 / 2 ^ k \<le> 1 / \<bar>b\<bar>" by (intro divide_left_mono) simp_all
  then show "1 / 2 ^ k \<le> \<bar>1 / b\<bar>" by (simp add: abs_divide)
  from b pos have "1 / \<bar>b\<bar> \<le> 1 / (1 / 2 ^ k)" by (intro divide_left_mono) simp_all
  then show "\<bar>1 / b\<bar> \<le> 2 ^ k" by (simp add: abs_divide)
qed

lemma mag_div: "mag j a \<Longrightarrow> mag k b \<Longrightarrow> mag (j + k) (a / b)"
  using mag_mult [of j a k "1 / b"] mag_inverse [of k b] by simp

lemma mag_round:
  assumes "mag k x" and "\<bar>d\<bar> \<le> 1 / 2 ^ 53"
  shows "mag (k + 1) (x * (1 + d))"
proof -
  have "1 / 2 ^ 53 \<le> (1 / 2 :: real)" by simp
  with assms(2) have "\<bar>d\<bar> \<le> 1 / 2" by linarith
  then have "1 / 2 \<le> \<bar>1 + d\<bar>" "\<bar>1 + d\<bar> \<le> 2" by linarith+
  then have "mag 1 (1 + d)" by (simp add: mag_def)
  from mag_mult [OF assms(1) this] show ?thesis .
qed

lemma f64_mag:
  assumes "mag k x" and "k \<le> 1022"
  shows "\<exists>d. \<bar>d\<bar> \<le> 1 / 2 ^ 53 \<and> f64 x = Num (x * (1 + d)) \<and> mag (k + 1) (x * (1 + d))"
proof -
  from assms(1) have x: "1 / 2 ^ k \<le> \<bar>x\<bar>" "\<bar>x\<bar> \<le> 2 ^ k" by (simp_all add: mag_def)
  have p: "(2::real) ^ k \<le> 2 ^ 1022" by (rule power_increasing [OF assms(2)]) simp
  have "1 / (2::real) ^ 1022 \<le> 1 / 2 ^ k" by (rule divide_left_mono [OF p]) simp_all
  from order_trans [OF this x(1)] have lo: "1 / 2 ^ 1022 \<le> \<bar>x\<bar>" .
  have "(2::real) ^ 1022 < 2 ^ 1023" by (rule power_strict_increasing) simp_all
  from order_le_less_trans [OF order_trans [OF x(2) p] this] have hi: "\<bar>x\<bar> < 2 ^ 1023" .
  from f64_rel [OF lo hi] obtain d where "\<bar>d\<bar> \<le> 1 / 2 ^ 53" "f64 x = Num (x * (1 + d))"
    by blast
  with mag_round [OF assms(1) this(1)] show ?thesis by blast
qed

lemma fmul_mag:
  assumes "mag j a" and "mag k b" and "j + k \<le> 1022"
  shows "\<exists>d. \<bar>d\<bar> \<le> 1 / 2 ^ 53 \<and> fmul (Num a) (Num b) = Num (a * b * (1 + d))
           \<and> mag (j + k + 1) (a * b * (1 + d))"
proof -
  from f64_mag [OF mag_mult [OF assms(1,2)] assms(3)] obtain d where
    d: "\<bar>d\<bar> \<le> 1 / 2 ^ 53" "f64 (a * b) = Num (a * b * (1 + d))" "mag (j + k + 1) (a * b * (1 + d))"
    by blast
  from d(2) have "fmul (Num a) (Num b) = Num (a * b * (1 + d))" by (simp add: fmul_def)
  with d show ?thesis by blast
qed

lemma fdiv_mag:
  assumes "mag j a" and "mag k b" and "j + k \<le> 1022"
  shows "\<exists>d. \<bar>d\<bar> \<le> 1 / 2 ^ 53 \<and> fdiv (Num a) (Num b) = Num (a / b * (1 + d))
           \<and> mag (j + k + 1) (a / b * (1 + d))"
proof -
  from f64_mag [OF mag_div [OF assms(1,2)] assms(3)] obtain d where
    d: "\<bar>d\<bar> \<le> 1 / 2 ^ 53" "f64 (a / b) = Num (a / b * (1 + d))" "mag (j + k + 1) (a / b * (1 + d))"
    by blast
  from d(2) mag_nonzero [OF assms(2)] have "fdiv (Num a) (Num b) = Num (a / b * (1 + d))"
    by (simp add: fdiv_def)
  with d show ?thesis by blast
qed

lemma prod_near_one:
  fixes u :: real
  assumes "list_all (\<lambda>d. \<bar>d\<bar> \<le> u) ds" and "0 \<le> u" and "u \<le> 1"
  shows "(1 - u) ^ length ds \<le> prod_list (map (\<lambda>d. 1 + d) ds)
       \<and> prod_list (map (\<lambda>d. 1 + d) ds) \<le> (1 + u) ^ length ds"
  using assms(1)
proof (induction ds)
  case Nil
  then show ?case by simp
next
  case (Cons d ds)
  then have d: "1 - u \<le> 1 + d" "1 + d \<le> 1 + u" and IH: "(1 - u) ^ length ds \<le> prod_list (map (\<lambda>d. 1 + d) ds)"
    "prod_list (map (\<lambda>d. 1 + d) ds) \<le> (1 + u) ^ length ds"
    by (auto simp: abs_le_iff)
  from assms(2,3) have nn: "0 \<le> 1 - u" "0 \<le> (1 - u) ^ length ds" by simp_all
  with d IH have p: "0 \<le> 1 + d" "0 \<le> prod_list (map (\<lambda>d. 1 + d) ds)" by linarith+
  have "(1 - u) * (1 - u) ^ length ds \<le> (1 + d) * prod_list (map (\<lambda>d. 1 + d) ds)"
    using d IH nn p by (intro mult_mono) simp_all
  moreover have "(1 + d) * prod_list (map (\<lambda>d. 1 + d) ds) \<le> (1 + u) * (1 + u) ^ length ds"
    using d IH nn p assms(2) by (intro mult_mono) simp_all
  ultimately show ?case by simp
qed

lemma six_roundings:
  fixes d1 d2 d3 d4 d5 d6 :: real
  assumes "\<bar>d1\<bar> \<le> 1 / 2 ^ 53" "\<bar>d2\<bar> \<le> 1 / 2 ^ 53" "\<bar>d3\<bar> \<le> 1 / 2 ^ 53"
    "\<bar>d4\<bar> \<le> 1 / 2 ^ 53" "\<bar>d5\<bar> \<le> 1 / 2 ^ 53" "\<bar>d6\<bar> \<le> 1 / 2 ^ 53"
  shows "\<bar>(1 + d1) * (1 + d2) * (1 + d3) * (1 + d4) * (1 + d5) * (1 + d6) - 1\<bar> \<le> 1 / 2 ^ 50"
proof -
  define u :: real where "u = 1 / 2 ^ 53"
  define P where "P = (1 + d1) * (1 + d2) * (1 + d3) * (1 + d4) * (1 + d5) * (1 + d6)"
  have u: "0 \<le> u" "u \<le> 1" by (simp_all add: u_def)
  from assms have all: "list_all (\<lambda>d. \<bar>d\<bar> \<le> u) [d1, d2, d3, d4, d5, d6]"
    by (simp add: u_def)
  have len: "length [d1, d2, d3, d4, d5, d6] = 6" by simp
  have pl: "prod_list (map (\<lambda>d. 1 + d) [d1, d2, d3, d4, d5, d6]) = P"
    by (simp add: P_def mult.assoc)
  from prod_near_one [OF all u] have b: "(1 - u) ^ 6 \<le> P" "P \<le> (1 + u) ^ 6"
    unfolding len pl by simp_all
  have "1 + real 6 * (- u) \<le> (1 + (- u)) ^ 6"
    by (rule Bernoulli_inequality) (simp add: u_def)
  moreover have "1 - 1 / 2 ^ 50 \<le> 1 + real 6 * (- u)" by (simp add: u_def)
  ultimately have lo: "1 - 1 / 2 ^ 50 \<le> (1 - u) ^ 6" by simp
  have hi: "(1 + u) ^ 6 \<le> 1 + 1 / 2 ^ 50" unfolding u_def by (simp add: power_divide)
  from b lo hi have "\<bar>P - 1\<bar> \<le> 1 / 2 ^ 50" by linarith
  then show ?thesis by (simp only: P_def)
qed

lemma f64_08': "f64 (4 / 5) = Num (3602879701896397 / 2 ^ 52)"
  using f64_08 by simp

section \<open>Monthly generation against consumption\<close>

text \<open>The six operations behind \<open>monthlyGeneration\<close> on that input, each rounded.\<close>

lemma solar100_step1: "fdiv (Num 100) (Num 30) = Num (7505999378950827 / 2 ^ 51)"
  by (simp add: fdiv_def f64_eval)
lemma solar100_step2: "fdiv (Num (7505999378950827 / 2 ^ 51)) (Num 5) = Num (6004799503160662 / 2 ^ 53)"
  by (simp add: fdiv_def f64_eval)
lemma solar100_step3: "fdiv (Num (6004799503160662 / 2 ^ 53)) (Num (3602879701896397 / 2 ^ 52)) = Num (7505999378950827 / 2 ^ 53)"
  by (simp add: fdiv_def f64_eval)
lemma solar100_step4: "fmul (Num (7505999378950827 / 2 ^ 53)) (Num 5) = Num (4691249611844267 / 2 ^ 50)"
  by (simp add: fmul_def f64_eval)
lemma solar100_step5: "fmul (Num (4691249611844267 / 2 ^ 50)) (Num 30) = Num (8796093022208001 / 2 ^ 46)"
  by (simp add: fmul_def f64_eval)
lemma solar100_step6: "fmul (Num (8796093022208001 / 2 ^ 46)) (Num (3602879701896397 / 2 ^ 52)) = Num (7036874417766401 / 2 ^ 46)"
  by (simp add: fmul_def f64_eval)

text \<open>
  C9. The claim: for a nonzero irradiation and panel power, \<open>monthlyGeneration\<close> equals
  the input \<open>monthlyConsumption\<close> exactly, because the factors 30, irradiation and 0.8
  cancel.

  They cancel in exact arithmetic only. On doubles each of the six operations rounds, and
  \<^verbatim>\<open>0.8\<close> is not a binary fraction: for a consumption of 100 and an irradiation of 5
  the function returns 100.00000000000001, the double next above 100.
\<close>

theorem monthlyGeneration_differs_in_binary64:
  "monthlyConsumption solar100 = Num 100
   \<and> monthlyGeneration (calculateSolar solar100) = Num (7036874417766401 / 2 ^ 46)
   \<and> (7036874417766401 / 2 ^ 46 :: real) = 100 + 1 / 2 ^ 46
   \<and> monthlyGeneration (calculateSolar solar100) \<noteq> monthlyConsumption solar100"
proof -
  have g: "monthlyGeneration (calculateSolar solar100) = Num (7036874417766401 / 2 ^ 46)"
    unfolding calculateSolar_def calculateSolar_with_def Let_def solar100_def
    by (simp only: SolarInput.select_convs SolarResult.select_convs f64_30 f64_08
        solar100_step1 solar100_step2 solar100_step3 solar100_step4 solar100_step5 solar100_step6)
  have v: "(7036874417766401 / 2 ^ 46 :: real) = 100 + 1 / 2 ^ 46" by simp
  have c: "monthlyConsumption solar100 = Num 100" by (simp add: solar100_def)
  from g v c show ?thesis by simp
qed

text \<open>
  C9, as the code has it: for a finite consumption \<open>m\<close> and irradiation \<open>s\<close> with
  magnitudes between \<open>2^-100\<close> and \<open>2^100\<close>, \<open>monthlyGeneration\<close> is a finite number
  within \<open>|m| / 2^50\<close> of \<open>m\<close> (six roundings of relative error at most \<open>2^-53\<close>
  each, the constant \<^verbatim>\<open>0.8\<close> cancelling exactly); in exact arithmetic it is \<open>m\<close>.
\<close>

theorem monthlyGeneration_near_consumption:
  assumes m: "monthlyConsumption inp = Num m" "1 / 2 ^ 100 \<le> \<bar>m\<bar>" "\<bar>m\<bar> \<le> 2 ^ 100"
    and s: "solarIrradiation inp = Num s" "1 / 2 ^ 100 \<le> \<bar>s\<bar>" "\<bar>s\<bar> \<le> 2 ^ 100"
  shows "monthlyGeneration (calculateSolar_exact inp) = Num m
       \<and> (\<exists>g. monthlyGeneration (calculateSolar inp) = Num g \<and> \<bar>g - m\<bar> \<le> \<bar>m\<bar> / 2 ^ 50)"
proof -
  define c :: real where "c = 3602879701896397 / 2 ^ 52"
  define k30 :: real where "k30 = 30"
  have lit: "f64 (4 / 5) = Num c" "f64 30 = Num k30"
    by (simp_all only: f64_08' f64_30 c_def k30_def)
  have mm: "mag 100 m" and ms: "mag 100 s" using m s by (simp_all add: mag_def)
  have m30: "mag 5 k30" and mc: "mag 1 c" by (simp_all add: mag_def c_def k30_def)
  from fdiv_mag [OF mm m30] obtain d1 where d1: "\<bar>d1\<bar> \<le> 1 / 2 ^ 53"
    "fdiv (Num m) (Num k30) = Num (m / k30 * (1 + d1))" "mag (100 + 5 + 1) (m / k30 * (1 + d1))"
    by auto
  define t1 where "t1 = m / k30 * (1 + d1)"
  note e1 = d1(2) [folded t1_def] and g1 = d1(3) [folded t1_def]
  from fdiv_mag [OF g1 ms] obtain d2 where d2: "\<bar>d2\<bar> \<le> 1 / 2 ^ 53"
    "fdiv (Num t1) (Num s) = Num (t1 / s * (1 + d2))" "mag (100 + 5 + 1 + 100 + 1) (t1 / s * (1 + d2))"
    by auto
  define t2 where "t2 = t1 / s * (1 + d2)"
  note e2 = d2(2) [folded t2_def] and g2 = d2(3) [folded t2_def]
  from fdiv_mag [OF g2 mc] obtain d3 where d3: "\<bar>d3\<bar> \<le> 1 / 2 ^ 53"
    "fdiv (Num t2) (Num c) = Num (t2 / c * (1 + d3))" "mag (100 + 5 + 1 + 100 + 1 + 1 + 1) (t2 / c * (1 + d3))"
    by auto
  define t3 where "t3 = t2 / c * (1 + d3)"
  note e3 = d3(2) [folded t3_def] and g3 = d3(3) [folded t3_def]
  from fmul_mag [OF g3 ms] obtain d4 where d4: "\<bar>d4\<bar> \<le> 1 / 2 ^ 53"
    "fmul (Num t3) (Num s) = Num (t3 * s * (1 + d4))"
    "mag (100 + 5 + 1 + 100 + 1 + 1 + 1 + 100 + 1) (t3 * s * (1 + d4))"
    by auto
  define t4 where "t4 = t3 * s * (1 + d4)"
  note e4 = d4(2) [folded t4_def] and g4 = d4(3) [folded t4_def]
  from fmul_mag [OF g4 m30] obtain d5 where d5: "\<bar>d5\<bar> \<le> 1 / 2 ^ 53"
    "fmul (Num t4) (Num k30) = Num (t4 * k30 * (1 + d5))"
    "mag (100 + 5 + 1 + 100 + 1 + 1 + 1 + 100 + 1 + 5 + 1) (t4 * k30 * (1 + d5))"
    by auto
  define t5 where "t5 = t4 * k30 * (1 + d5)"
  note e5 = d5(2) [folded t5_def] and g5 = d5(3) [folded t5_def]
  from fmul_mag [OF g5 mc] obtain d6 where d6: "\<bar>d6\<bar> \<le> 1 / 2 ^ 53"
    "fmul (Num t5) (Num c) = Num (t5 * c * (1 + d6))"
    by auto
  define g where "g = t5 * c * (1 + d6)"
  note e6 = d6(2) [folded g_def]
  have gen: "monthlyGeneration (calculateSolar inp) = Num g"
    unfolding calculateSolar_def calculateSolar_with_def Let_def
    by (simp add: m(1) s(1) lit e1 e2 e3 e4 e5 e6)
  from mag_nonzero [OF ms] have s0: "s \<noteq> 0" .
  from mag_nonzero [OF mc] have c0: "c \<noteq> 0" .
  have "g = m * ((1 + d1) * (1 + d2) * (1 + d3) * (1 + d4) * (1 + d5) * (1 + d6))"
    unfolding g_def t5_def t4_def t3_def t2_def t1_def using s0 c0 by (simp add: k30_def)
  then have "g - m = m * ((1 + d1) * (1 + d2) * (1 + d3) * (1 + d4) * (1 + d5) * (1 + d6) - 1)"
    by (simp add: right_diff_distrib)
  then have "\<bar>g - m\<bar> = \<bar>m\<bar> * \<bar>(1 + d1) * (1 + d2) * (1 + d3) * (1 + d4) * (1 + d5) * (1 + d6) - 1\<bar>"
    by (simp only: abs_mult)
  also have "\<dots> \<le> \<bar>m\<bar> * (1 / 2 ^ 50)"
    by (rule mult_left_mono [OF six_roundings [OF d1(1) d2(1) d3(1) d4(1) d5(1) d6(1)]]) simp
  finally have "\<bar>g - m\<bar> \<le> \<bar>m\<bar> / 2 ^ 50" by simp
  moreover have "monthlyGeneration (calculateSolar_exact inp) = Num m"
    using s0 by (simp add: calculateSolar_exact_def calculateSolar_with_def Let_def m(1) s(1))
  ultimately show ?thesis using gen by blast
qed

theorem monthlyGeneration_near_consumption_witness:
  "monthlyConsumption solar100 = Num 100 \<and> 1 / 2 ^ 100 \<le> \<bar>100 :: real\<bar> \<and> \<bar>100 :: real\<bar> \<le> 2 ^ 100
   \<and> solarIrradiation solar100 = Num 5 \<and> 1 / 2 ^ 100 \<le> \<bar>5 :: real\<bar> \<and> \<bar>5 :: real\<bar> \<le> 2 ^ 100
   \<and> monthlyGeneration (calculateSolar_exact solar100) = Num 100
   \<and> (\<exists>g. monthlyGeneration (calculateSolar solar100) = Num g \<and> \<bar>g - 100\<bar> \<le> \<bar>100\<bar> / 2 ^ 50)"
proof -
  have h: "monthlyConsumption solar100 = Num 100" "1 / 2 ^ 100 \<le> \<bar>100 :: real\<bar>" "\<bar>100 :: real\<bar> \<le> 2 ^ 100"
    "solarIrradiation solar100 = Num 5" "1 / 2 ^ 100 \<le> \<bar>5 :: real\<bar>" "\<bar>5 :: real\<bar> \<le> 2 ^ 100"
    by (simp_all add: solar100_def)
  from monthlyGeneration_near_consumption [OF h] h show ?thesis by blast
qed

section \<open>The short-circuit estimator\<close>




end
